theory Spec2Isabelle
  imports Complex_Main "HOL-Library.AList" "HOL-Library.Multiset"
begin

section \<open>Errors\<close>

text \<open>
  The exceptions of the Python source are values. \<open>SystemExit\<close> is what the builtin
  \<^verbatim>\<open>exit()\<close> raises; \<open>UnbalancedReaction\<close> and \<open>SolventsDontMatch\<close> are the two
  exceptions of \<^verbatim>\<open>autode.exceptions\<close> that the tests import.
\<close>

datatype error =
    TypeError
  | IndexError
  | AttributeError
  | KeyError
  | ZeroDivisionError
  | SystemExit
  | UnbalancedReaction
  | SolventsDontMatch

section \<open>Data model\<close>

text \<open>
  A line of an xyz list is \<^verbatim>\<open>[label, x, y, z]\<close>. Energies and coordinates are Python
  floats; they are modelled as reals, so the theorems below are about the control flow
  and the comparisons of the code, not about rounding.
\<close>

type_synonym xyz = "string \<times> real \<times> real \<times> real"

text \<open>
  \<^verbatim>\<open>Conformer(name=..., xyzs=..., solvent=..., charge=..., mult=...)\<close>: the class is
  imported from \<^verbatim>\<open>autode.conformers.conformers\<close>; the record holds the keyword
  arguments the constructor is called with and the energy that
  \<^verbatim>\<open>strip_non_unique_confs\<close> reads.
\<close>

record conformer =
  conf_name :: string
  conf_xyzs :: "xyz list"
  conf_solvent :: "string option"
  conf_charge :: int
  conf_mult :: int
  conf_energy :: "real option"

text \<open>
  What the code reads from the rdkit molecule object: \<^verbatim>\<open>GetNumAtoms()\<close>,
  \<^verbatim>\<open>GetBonds()\<close>, \<^verbatim>\<open>GetFormalCharge\<close> and \<^verbatim>\<open>NumRadicalElectrons\<close>.
\<close>

record rdkit_mol =
  GetNumAtoms :: nat
  GetBonds :: "(nat \<times> nat) list"
  GetFormalCharge :: int
  NumRadicalElectrons :: int

text \<open>
  The attributes that \<^verbatim>\<open>Molecule.__init__\<close> assigns, an attribute that starts as
  \<^verbatim>\<open>None\<close> being an option. The graph is a networkx object, which the code mutates
  and copies: the molecule holds a reference into a store of graphs.
\<close>

type_synonym ref = nat

record molecule =
  name :: string
  smiles :: "string option"
  solvent :: "string option"
  charge :: int
  mult :: int
  xyzs :: "xyz list option"
  mol_obj :: "rdkit_mol option"
  energy :: "real option"
  n_atoms :: "nat option"
  n_bonds :: "nat option"
  conformers :: "conformer list option"
  n_conformers :: "nat option"
  rdkit_conf_gen_is_fine :: bool
  graph :: "ref option"
  distance_matrix :: "real list list option"

text \<open>The attributes as \<^verbatim>\<open>Molecule()\<close> leaves them when neither SMILES nor xyzs is given.\<close>

definition mol0 :: molecule where
  "mol0 = \<lparr>name = ''molecule'', smiles = None, solvent = None, charge = 0, mult = 1,
     xyzs = None, mol_obj = None, energy = None, n_atoms = None, n_bonds = None,
     conformers = None, n_conformers = None, rdkit_conf_gen_is_fine = True,
     graph = None, distance_matrix = None\<rparr>"

section \<open>Molecular graphs\<close>

text \<open>
  The molecular graph is a \<^verbatim>\<open>networkx.Graph\<close>: undirected, every edge carrying a
  dictionary of attributes (the code writes the key \<^verbatim>\<open>'active'\<close>). The model keeps the
  nodes and the edges in lists; an edge is stored once, as the pair that
  \<^verbatim>\<open>edges()\<close> reports, with its attributes as an association list. In which of
  its two orientations networkx reports an edge depends on the order of its adjacency
  dictionaries: the operations below look an edge up in both orientations, as networkx
  does, and the theorems are stated up to orientation.
\<close>

type_synonym edge = "nat \<times> nat"

type_synonym attrs = "(string \<times> bool) list"

record nx_graph =
  nodes :: "nat list"
  edge_data :: "(edge \<times> attrs) list"

definition same_edge :: "edge \<Rightarrow> edge \<Rightarrow> bool" where
  "same_edge e b = (e = b \<or> e = (snd b, fst b))"

text \<open>\<^verbatim>\<open>G.edges()\<close>, \<^verbatim>\<open>G.number_of_edges()\<close> and \<^verbatim>\<open>G.has_edge(u, v)\<close>.\<close>

definition edges :: "nx_graph \<Rightarrow> edge list" where
  "edges g = map fst (edge_data g)"

definition number_of_edges :: "nx_graph \<Rightarrow> nat" where
  "number_of_edges g = length (edges g)"

definition has_edge :: "nx_graph \<Rightarrow> nat \<Rightarrow> nat \<Rightarrow> bool" where
  "has_edge g u v = (\<exists>e \<in> set (edges g). same_edge e (u, v))"

text \<open>\<^verbatim>\<open>G.edges[u, v].get(key)\<close> for an edge of the graph, \<open>None\<close> where there is no edge.\<close>

definition edge_attr :: "nx_graph \<Rightarrow> nat \<Rightarrow> nat \<Rightarrow> string \<Rightarrow> bool option" where
  "edge_attr g u v key =
     (case find (\<lambda>(e, d). same_edge e (u, v)) (edge_data g) of
        None \<Rightarrow> None
      | Some (e, d) \<Rightarrow> map_of d key)"

text \<open>
  \<^verbatim>\<open>G.edges[u, v][key] = val\<close>: the attribute dictionary of the edge is updated in
  place; \<^verbatim>\<open>KeyError\<close> when there is no such edge.
\<close>

definition set_edge_attr ::
  "nx_graph \<Rightarrow> nat \<Rightarrow> nat \<Rightarrow> string \<Rightarrow> bool \<Rightarrow> error + nx_graph" where
  "set_edge_attr g u v key val =
     (if has_edge g u v
      then Inr (g\<lparr>edge_data :=
             map (\<lambda>(e, d). if same_edge e (u, v) then (e, AList.update key val d) else (e, d))
               (edge_data g)\<rparr>)
      else Inl KeyError)"

text \<open>\<^verbatim>\<open>datadict.update(attr)\<close>.\<close>

fun dict_update :: "attrs \<Rightarrow> attrs \<Rightarrow> attrs" where
  "dict_update d [] = d"
| "dict_update d ((k, v) # kvs) = dict_update (AList.update k v d) kvs"

text \<open>
  \<^verbatim>\<open>G.add_edge(u, v, **attr)\<close>: both nodes are added when they are not nodes yet; an
  edge that exists has its attributes updated, otherwise a new edge is added whose
  attributes are \<^verbatim>\<open>attr\<close>.
\<close>

definition add_node :: "nat \<Rightarrow> nat list \<Rightarrow> nat list" where
  "add_node u ns = (if u \<in> set ns then ns else ns @ [u])"

definition add_edge :: "nx_graph \<Rightarrow> nat \<Rightarrow> nat \<Rightarrow> attrs \<Rightarrow> nx_graph" where
  "add_edge g u v attr =
     g\<lparr>nodes := add_node v (add_node u (nodes g)),
       edge_data :=
         (if has_edge g u v
          then map (\<lambda>(e, d). if same_edge e (u, v) then (e, dict_update d attr) else (e, d))
                 (edge_data g)
          else edge_data g @ [((u, v), dict_update [] attr)])\<rparr>"

text \<open>
  \<^verbatim>\<open>G.copy()\<close>: a new graph object with the same nodes and edges and with attribute
  dictionaries of its own. The contents are equal; that the object is new is modelled by
  the store, where the copy gets a fresh reference.
\<close>

definition copy :: "nx_graph \<Rightarrow> nx_graph" where
  "copy g = g"

subsection \<open>The store of graph objects\<close>

text \<open>
  A reference is an index into the list of graph objects; a new object is appended, and a
  mutation replaces the object at its reference.
\<close>

type_synonym store = "nx_graph list"

definition new_object :: "store \<Rightarrow> nx_graph \<Rightarrow> store \<times> ref" where
  "new_object h g = (h @ [g], length h)"

subsection \<open>Bonds of a molecule\<close>

text \<open>
  \<^verbatim>\<open>get_possible_forming_bonds\<close>: the list comprehension over
  \<^verbatim>\<open>range(self.n_atoms)\<close> twice. A molecule without graph raises on
  \<^verbatim>\<open>self.graph.edges()\<close>, one without atom count on \<^verbatim>\<open>range(None)\<close>.
\<close>

definition get_possible_forming_bonds :: "store \<Rightarrow> molecule \<Rightarrow> error + edge list" where
  "get_possible_forming_bonds h self =
     (case graph self of
        None \<Rightarrow> Inl AttributeError
      | Some r \<Rightarrow>
         (let curr_bonds = edges (h ! r) in
          case n_atoms self of
            None \<Rightarrow> Inl TypeError
          | Some n \<Rightarrow>
              Inr [(i, j). i \<leftarrow> [0..<n], j \<leftarrow> [0..<n],
                     i < j \<and> (i, j) \<notin> set curr_bonds \<and> (j, i) \<notin> set curr_bonds]))"

definition get_possible_breaking_bonds :: "store \<Rightarrow> molecule \<Rightarrow> error + edge list" where
  "get_possible_breaking_bonds h self =
     (case graph self of
        None \<Rightarrow> Inl AttributeError
      | Some r \<Rightarrow> Inr (edges (h ! r)))"

subsection \<open>The graph with active edges\<close>

text \<open>
  The inner loop of \<^verbatim>\<open>get_active_mol_graph\<close>,
  \<^verbatim>\<open>for edge in active_graph.edges()\<close>, on the graph object at reference \<open>a\<close>. The
  loop changes attributes only, so the edges it visits are those the graph had when the
  loop started: the list argument. The flag is \<^verbatim>\<open>has_edge\<close>.
\<close>

fun mark_edges :: "store \<Rightarrow> ref \<Rightarrow> edge \<Rightarrow> edge list \<Rightarrow> bool \<Rightarrow> error + store \<times> bool" where
  "mark_edges h a bond [] has_edge_flag = Inr (h, has_edge_flag)"
| "mark_edges h a bond (edge # es) has_edge_flag =
     (if edge = bond \<or> edge = (snd bond, fst bond)
      then (case set_edge_attr (h ! a) (fst edge) (snd edge) ''active'' True of
              Inl e \<Rightarrow> Inl e
            | Inr g \<Rightarrow> mark_edges (h[a := g]) a bond es True)
      else mark_edges h a bond es has_edge_flag)"

text \<open>The outer loop, \<^verbatim>\<open>for bond in active_bonds\<close>.\<close>

fun mark_bonds :: "store \<Rightarrow> ref \<Rightarrow> edge list \<Rightarrow> error + store" where
  "mark_bonds h a [] = Inr h"
| "mark_bonds h a (bond # bonds) =
     (case mark_edges h a bond (edges (h ! a)) False of
        Inl e \<Rightarrow> Inl e
      | Inr (h', has_edge_flag) \<Rightarrow>
         (if \<not> has_edge_flag
          then mark_bonds (h'[a := add_edge (h' ! a) (fst bond) (snd bond) [(''active'', True)]])
                 a bonds
          else mark_bonds h' a bonds))"

text \<open>
  \<^verbatim>\<open>get_active_mol_graph\<close> returns the reference of the new graph object, together
  with the store after the call.
\<close>

definition get_active_mol_graph ::
  "store \<Rightarrow> molecule \<Rightarrow> edge list \<Rightarrow> error + store \<times> ref" where
  "get_active_mol_graph h self active_bonds =
     (case graph self of
        None \<Rightarrow> Inl AttributeError
      | Some r \<Rightarrow>
         (case new_object h (copy (h ! r)) of
            (h1, active_graph) \<Rightarrow>
              (case mark_bonds h1 active_graph active_bonds of
                 Inl e \<Rightarrow> Inl e
               | Inr h2 \<Rightarrow> Inr (h2, active_graph))))"

section \<open>Spin multiplicity\<close>

text \<open>
  \<^verbatim>\<open>_calc_multiplicity\<close>: the warning that is logged for more than one radical
  electron does not change what is returned.
\<close>

definition calc_multiplicity :: "molecule \<Rightarrow> int \<Rightarrow> int" where
  "calc_multiplicity self n_radical_electrons =
     (if n_radical_electrons = 1 then 2 else mult self)"

section \<open>Conformer deduplication\<close>

text \<open>
  The inner loop of \<^verbatim>\<open>strip_non_unique_confs\<close>,
  \<^verbatim>\<open>for j in range(len(unique_conformers))\<close>, for the conformer at index \<open>i\<close>. The
  list argument is the range still to be visited. The comparison reads
  \<^verbatim>\<open>self.conformers[j]\<close>, the \<open>j\<close>-th conformer of the molecule's list, and so does the
  model. The result is the value of \<^verbatim>\<open>unique\<close> when the loop ends or breaks; an energy
  that is \<^verbatim>\<open>None\<close> makes the arithmetic or the comparison raise \<^verbatim>\<open>TypeError\<close>.
\<close>

fun is_unique :: "conformer list \<Rightarrow> real \<Rightarrow> nat \<Rightarrow> nat list \<Rightarrow> error + bool" where
  "is_unique confs d_e i [] = Inr True"
| "is_unique confs d_e i (j # js) =
     (if \<not> i < length confs then Inl IndexError
      else case conf_energy (confs ! i) of
        None \<Rightarrow> Inl TypeError
      | Some e_i \<Rightarrow>
         (if \<not> j < length confs then Inl IndexError
          else case conf_energy (confs ! j) of
            None \<Rightarrow> Inl TypeError
          | Some e_j \<Rightarrow>
             (if e_i - d_e < e_j \<and> e_j < e_i + d_e then Inr False
              else is_unique confs d_e i js)))"

text \<open>
  The outer loop, \<^verbatim>\<open>for i in range(1, self.n_conformers)\<close>, with the list
  \<^verbatim>\<open>unique_conformers\<close> as accumulator.
\<close>

fun strip_loop ::
  "conformer list \<Rightarrow> real \<Rightarrow> nat list \<Rightarrow> conformer list \<Rightarrow> error + conformer list" where
  "strip_loop confs d_e [] unique_conformers = Inr unique_conformers"
| "strip_loop confs d_e (i # is) unique_conformers =
     (case is_unique confs d_e i [0..<length unique_conformers] of
        Inl e \<Rightarrow> Inl e
      | Inr unique \<Rightarrow>
         (if unique then
            (if i < length confs
             then strip_loop confs d_e is (unique_conformers @ [confs ! i])
             else Inl IndexError)
          else strip_loop confs d_e is unique_conformers))"

text \<open>
  \<^verbatim>\<open>strip_non_unique_confs(self, energy_threshold_kj=1)\<close>. The constant
  \<^verbatim>\<open>Constants.ha2kJmol\<close> is defined in \<^verbatim>\<open>autode.constants\<close>, which is not among the
  sources: it is the parameter \<open>ha2kJmol\<close>. The result is the molecule after the call.
\<close>

definition strip_non_unique_confs :: "real \<Rightarrow> molecule \<Rightarrow> real \<Rightarrow> error + molecule" where
  "strip_non_unique_confs ha2kJmol self energy_threshold_kj =
     (if ha2kJmol = 0 then Inl ZeroDivisionError
      else let d_e = energy_threshold_kj / ha2kJmol in
        case conformers self of
          None \<Rightarrow> Inl TypeError
        | Some [] \<Rightarrow> Inl IndexError
        | Some (c0 # cs) \<Rightarrow>
           (case n_conformers self of
              None \<Rightarrow> Inl TypeError
            | Some n \<Rightarrow>
               (case strip_loop (c0 # cs) d_e [1..<n] [c0] of
                  Inl e \<Rightarrow> Inl e
                | Inr unique_conformers \<Rightarrow>
                    Inr (self\<lparr>conformers := Some unique_conformers,
                              n_conformers := Some (length unique_conformers)\<rparr>))))"

section \<open>Functions of the repository that are not among the sources\<close>

text \<open>
  \<^verbatim>\<open>molecule.py\<close> imports these functions from modules that are not among the
  sources (\<^verbatim>\<open>mol_graphs\<close>, \<^verbatim>\<open>geom\<close>, \<^verbatim>\<open>bond_lengths\<close>, \<^verbatim>\<open>conformers\<close>) and from
  rdkit. They are parameters of the model: each field is the function of that name, taking
  what the code passes to it. \<open>MolFromSmiles\<close> stands for \<^verbatim>\<open>Chem.MolFromSmiles\<close>
  followed by \<^verbatim>\<open>Chem.AddHs\<close>, with \<open>None\<close> for the \<^verbatim>\<open>RuntimeError\<close> the code
  catches; \<open>gen_rdkit_conf_xyzs\<close> includes the embedding that precedes it.
\<close>

record env =
  MolFromSmiles :: "string \<Rightarrow> rdkit_mol option"
  gen_rdkit_conf_xyzs :: "molecule \<Rightarrow> nat list \<Rightarrow> xyz list list"
  rdkit_conformer_geometries_are_resonable :: "xyz list list \<Rightarrow> bool"
  get_bond_list_from_rdkit_bonds :: "(nat \<times> nat) list \<Rightarrow> (nat \<times> nat) list"
  gen_simanl_conf_xyzs ::
    "string \<Rightarrow> xyz list option \<Rightarrow> (nat \<times> nat) list \<Rightarrow> int \<Rightarrow> nat option \<Rightarrow> xyz list list"
  generate_unique_rdkit_confs :: "rdkit_mol option \<Rightarrow> nat \<Rightarrow> nat list"
  make_graph :: "xyz list \<Rightarrow> nat option \<Rightarrow> nx_graph"
  calc_distance_matrix :: "xyz list \<Rightarrow> real list list"

section \<open>Geometry updates\<close>

text \<open>
  \<^verbatim>\<open>set_xyzs\<close>: four assignments. The graph that \<^verbatim>\<open>make_graph\<close> returns is a new
  object of the store; the result is the store and the molecule after the call.
\<close>

definition set_xyzs :: "env \<Rightarrow> store \<Rightarrow> molecule \<Rightarrow> xyz list \<Rightarrow> store \<times> molecule" where
  "set_xyzs env h self new_xyzs =
     (let self1 = self\<lparr>xyzs := Some new_xyzs\<rparr>;
          self2 = self1\<lparr>distance_matrix := Some (calc_distance_matrix env new_xyzs)\<rparr>
      in case new_object h (make_graph env new_xyzs (n_atoms self2)) of
           (h1, g) \<Rightarrow>
             (let self3 = self2\<lparr>graph := Some g\<rparr>
              in (h1, self3\<lparr>n_bonds := Some (number_of_edges (h1 ! g))\<rparr>)))"

section \<open>Initialisation from SMILES\<close>

text \<open>
  \<^verbatim>\<open>_check_rdkit_graph_agreement\<close>: the assertion failure is caught and answered with
  \<^verbatim>\<open>exit()\<close>. A molecule without graph raises \<^verbatim>\<open>AttributeError\<close> inside the
  \<^verbatim>\<open>try\<close>, which the \<^verbatim>\<open>except AssertionError\<close> does not catch.
\<close>

definition check_rdkit_graph_agreement :: "store \<Rightarrow> molecule \<Rightarrow> error + unit" where
  "check_rdkit_graph_agreement h self =
     (case graph self of
        None \<Rightarrow> Inl AttributeError
      | Some g \<Rightarrow>
         (if n_bonds self = Some (number_of_edges (h ! g)) then Inr () else Inl SystemExit))"

text \<open>
  The assignments of \<^verbatim>\<open>_init_smiles\<close> that read the rdkit molecule object:
  \<^verbatim>\<open>n_atoms\<close>, \<^verbatim>\<open>n_bonds\<close>, \<^verbatim>\<open>charge\<close> and \<^verbatim>\<open>mult\<close>.
\<close>

definition read_rdkit_mol :: "molecule \<Rightarrow> rdkit_mol \<Rightarrow> molecule" where
  "read_rdkit_mol self mo =
     (let self1 = self\<lparr>mol_obj := Some mo, n_atoms := Some (GetNumAtoms mo),
                       n_bonds := Some (length (GetBonds mo)), charge := GetFormalCharge mo\<rparr>
      in self1\<lparr>mult := calc_multiplicity self1 (NumRadicalElectrons mo)\<rparr>)"

text \<open>
  \<^verbatim>\<open>_init_smiles\<close>. Indexing the list of coordinate sets with \<^verbatim>\<open>[0]\<close> raises
  \<^verbatim>\<open>IndexError\<close> on an empty list. The argument \<open>name\<close> is used by the log message
  only; the annealing generator is called with \<^verbatim>\<open>self.name\<close>.
\<close>

definition init_smiles ::
  "env \<Rightarrow> store \<Rightarrow> molecule \<Rightarrow> string \<Rightarrow> string \<Rightarrow> error + store \<times> molecule" where
  "init_smiles env h self name_arg smiles_arg =
     (case MolFromSmiles env smiles_arg of
        None \<Rightarrow> Inl SystemExit
      | Some mo \<Rightarrow>
         (let self2 = read_rdkit_mol self mo in
          case gen_rdkit_conf_xyzs env self2 [0] of
            [] \<Rightarrow> Inl IndexError
          | x # _ \<Rightarrow>
             (let self3 = self2\<lparr>xyzs := Some x\<rparr> in
              if \<not> rdkit_conformer_geometries_are_resonable env [x]
              then
                (let self4 = self3\<lparr>rdkit_conf_gen_is_fine := False\<rparr>;
                     bond_list = get_bond_list_from_rdkit_bonds env (GetBonds mo)
                 in case gen_simanl_conf_xyzs env (name self4) (xyzs self4) bond_list
                           (charge self4) (Some 1) of
                      [] \<Rightarrow> Inl IndexError
                    | y # _ \<Rightarrow>
                       (let self5 = self4\<lparr>xyzs := Some y\<rparr> in
                        case new_object h (make_graph env y (n_atoms self5)) of
                          (h1, g) \<Rightarrow>
                            (let self6 = self5\<lparr>graph := Some g\<rparr>;
                                 self7 = self6\<lparr>n_bonds := Some (number_of_edges (h1 ! g))\<rparr>
                             in Inr (h1, self7\<lparr>distance_matrix :=
                                          Some (calc_distance_matrix env y)\<rparr>))))
              else
                (case new_object h (make_graph env x (n_atoms self3)) of
                   (h1, g) \<Rightarrow>
                     (let self4 = self3\<lparr>graph := Some g\<rparr> in
                      case check_rdkit_graph_agreement h1 self4 of
                        Inl e \<Rightarrow> Inl e
                      | Inr _ \<Rightarrow>
                          Inr (h1, self4\<lparr>distance_matrix :=
                                     Some (calc_distance_matrix env x)\<rparr>))))))"

section \<open>Conformer generation\<close>

text \<open>\<^verbatim>\<open>str(i)\<close> for a list index: its decimal digits.\<close>

fun str_nat :: "nat \<Rightarrow> string" where
  "str_nat n =
     (if n < 10 then [''0123456789'' ! n]
      else str_nat (n div 10) @ [''0123456789'' ! (n mod 10)])"

declare str_nat.simps [simp del]

text \<open>
  The constructor call of \<^verbatim>\<open>generate_conformers\<close>. The class \<^verbatim>\<open>Conformer\<close> is not
  among the sources; a new conformer has no energy until a calculation assigns one.
\<close>

definition Conformer ::
  "string \<Rightarrow> xyz list \<Rightarrow> string option \<Rightarrow> int \<Rightarrow> int \<Rightarrow> conformer" where
  "Conformer name_arg xyzs_arg solvent_arg charge_arg mult_arg =
     \<lparr>conf_name = name_arg, conf_xyzs = xyzs_arg, conf_solvent = solvent_arg,
      conf_charge = charge_arg, conf_mult = mult_arg, conf_energy = None\<rparr>"

text \<open>
  The loop \<^verbatim>\<open>for i in range(len(conf_xyzs))\<close> of \<^verbatim>\<open>generate_conformers\<close>, which
  appends one conformer for every index.
\<close>

definition make_conformers :: "molecule \<Rightarrow> xyz list list \<Rightarrow> conformer list" where
  "make_conformers self conf_xyzs_list =
     map (\<lambda>i. Conformer (name self @ ''_conf'' @ str_nat i) (conf_xyzs_list ! i)
                (solvent self) (charge self) (mult self))
       [0..<length conf_xyzs_list]"

text \<open>
  \<^verbatim>\<open>generate_conformers(self, n_rdkit_confs=300)\<close>. The coordinate sets of the two
  branches are \<open>rdkit_conf_xyzs\<close> and \<open>simanl_conf_xyzs\<close>; the second reads
  \<^verbatim>\<open>self.mol_obj.GetBonds()\<close>, which raises for a molecule without rdkit object.
\<close>

definition rdkit_conf_xyzs :: "env \<Rightarrow> molecule \<Rightarrow> nat \<Rightarrow> xyz list list" where
  "rdkit_conf_xyzs env self n_rdkit_confs =
     gen_rdkit_conf_xyzs env (self\<lparr>conformers := Some []\<rparr>)
       (generate_unique_rdkit_confs env (mol_obj self) n_rdkit_confs)"

definition simanl_conf_xyzs :: "env \<Rightarrow> molecule \<Rightarrow> rdkit_mol \<Rightarrow> xyz list list" where
  "simanl_conf_xyzs env self mo =
     gen_simanl_conf_xyzs env (name self) (xyzs self)
       (get_bond_list_from_rdkit_bonds env (GetBonds mo)) (charge self) None"

definition generate_conformers :: "env \<Rightarrow> molecule \<Rightarrow> nat \<Rightarrow> error + molecule" where
  "generate_conformers env self n_rdkit_confs =
     (let self1 = self\<lparr>conformers := Some []\<rparr> in
      case (if rdkit_conf_gen_is_fine self1
            then Inr (rdkit_conf_xyzs env self n_rdkit_confs)
            else (case mol_obj self1 of
                    None \<Rightarrow> Inl AttributeError
                  | Some mo \<Rightarrow> Inr (simanl_conf_xyzs env self mo))) of
        Inl e \<Rightarrow> Inl e
      | Inr conf_xyzs_list \<Rightarrow>
         (let cs = make_conformers self1 conf_xyzs_list
          in Inr (self1\<lparr>conformers := Some cs, n_conformers := Some (length cs)\<rparr>)))"

subsection \<open>What the loops of \<^verbatim>\<open>get_active_mol_graph\<close> compute\<close>

text \<open>
  Two functions on graphs, used to state what the loops above do: \<open>mark_active\<close> sets
  \<^verbatim>\<open>'active'\<close> on the edges between the two atoms of a bond, and \<open>activate\<close> is one
  pass of the outer loop, which marks the edge when there is one and adds an edge when
  there is none.
\<close>

definition mark_active :: "nx_graph \<Rightarrow> edge \<Rightarrow> nx_graph" where
  "mark_active g bond =
     g\<lparr>edge_data :=
         map (\<lambda>(e, d). if same_edge e bond then (e, AList.update ''active'' True d) else (e, d))
           (edge_data g)\<rparr>"

definition activate :: "nx_graph \<Rightarrow> edge \<Rightarrow> nx_graph" where
  "activate g bond =
     (if has_edge g (fst bond) (snd bond) then mark_active g bond
      else add_edge g (fst bond) (snd bond) [(''active'', True)])"

section \<open>Example inputs\<close>

text \<open>A conformer of the molecule \<^verbatim>\<open>molecule\<close> with the given index and energy.\<close>

definition conf_at :: "nat \<Rightarrow> real \<Rightarrow> conformer" where
  "conf_at i e = \<lparr>conf_name = ''molecule_conf'' @ [char_of (48 + i)], conf_xyzs = [],
     conf_solvent = None, conf_charge = 0, conf_mult = 1, conf_energy = Some e\<rparr>"

text \<open>A graph on three atoms with the bonds 0-1 and 1-2 and no attributes.\<close>

definition chain_graph :: nx_graph where
  "chain_graph = \<lparr>nodes = [0, 1, 2], edge_data = [((0, 1), []), ((1, 2), [])]\<rparr>"

text \<open>
  An environment for the examples: rdkit parses every SMILES string to a molecule of three
  atoms and two bonds and embeds every conformer at the same coordinates, every embedding
  is reasonable, and every geometry has the graph \<open>chain_graph\<close>.
\<close>

definition h3_xyzs :: "xyz list" where
  "h3_xyzs = [(''H'', 0, 0, 0), (''H'', 0.7, 0, 0), (''H'', 1.4, 0, 0)]"

definition h3_rdkit :: rdkit_mol where
  "h3_rdkit = \<lparr>GetNumAtoms = 3, GetBonds = [(0, 1), (1, 2)], GetFormalCharge = 0,
     NumRadicalElectrons = 1\<rparr>"

definition env0 :: env where
  "env0 = \<lparr>MolFromSmiles = (\<lambda>s. Some h3_rdkit),
     gen_rdkit_conf_xyzs = (\<lambda>m ids. map (\<lambda>i. h3_xyzs) ids),
     rdkit_conformer_geometries_are_resonable = (\<lambda>xs. True),
     get_bond_list_from_rdkit_bonds = (\<lambda>bs. bs),
     gen_simanl_conf_xyzs = (\<lambda>n x bs c k. [h3_xyzs]),
     generate_unique_rdkit_confs = (\<lambda>m n. [0]),
     make_graph = (\<lambda>x n. chain_graph),
     calc_distance_matrix = (\<lambda>x. [])\<rparr>"

section \<open>Lemmas\<close>

lemma distinct_concat_keyed:
  "distinct xs \<Longrightarrow> (\<And>x. x \<in> set xs \<Longrightarrow> distinct (f x))
   \<Longrightarrow> (\<And>x y. x \<in> set xs \<Longrightarrow> y \<in> set (f x) \<Longrightarrow> key y = x)
   \<Longrightarrow> distinct (concat (map f xs))"
proof (induction xs)
  case Nil
  then show ?case by simp
next
  case (Cons x xs)
  have "set (f x) \<inter> (\<Union>z\<in>set xs. set (f z)) = {}"
  proof (rule ccontr)
    assume "set (f x) \<inter> (\<Union>z\<in>set xs. set (f z)) \<noteq> {}"
    then obtain y z where yz: "y \<in> set (f x)" "z \<in> set xs" "y \<in> set (f z)" by auto
    from Cons.prems(3) [of x y] yz have "key y = x" by simp
    moreover from Cons.prems(3) [of z y] yz have "key y = z" by simp
    ultimately show False using yz(2) Cons.prems(1) by simp
  qed
  with Cons show ?case by simp
qed

lemma distinct_pairs:
  "distinct [(i, j). i \<leftarrow> [0..<n], j \<leftarrow> [0..<m], P i j]"
proof (rule distinct_concat_keyed [where key = fst])
  show "distinct [0..<n]" by simp
next
  fix x assume "x \<in> set [0..<n]"
  show "distinct (concat (map (\<lambda>j. if P x j then [(x, j)] else []) [0..<m]))"
    by (rule distinct_concat_keyed [where key = snd]) (auto split: if_splits)
next
  fix x y
  assume "x \<in> set [0..<n]"
    "y \<in> set (concat (map (\<lambda>j. if P x j then [(x, j)] else []) [0..<m]))"
  then show "fst y = x" by (auto split: if_splits)
qed

subsection \<open>The graph with active edges\<close>

lemma same_edge_refl [simp]: "same_edge e e"
  by (simp add: same_edge_def)

lemma same_edge_swap: "same_edge e (v, u) = same_edge e (u, v)"
  by (auto simp: same_edge_def)

lemma same_edge_sym: "same_edge e b = same_edge b e"
  by (cases e; cases b) (auto simp: same_edge_def)

lemma same_edge_trans: "same_edge e b \<Longrightarrow> same_edge x e = same_edge x b"
  by (cases e; cases b; cases x) (auto simp: same_edge_def)

lemma edges_mark_active [simp]: "edges (mark_active g b) = edges g"
  by (simp add: edges_def mark_active_def case_prod_unfold comp_def if_distrib cong: if_cong)

lemma has_edge_mark_active [simp]: "has_edge (mark_active g b) u v = has_edge g u v"
  by (simp add: has_edge_def)

lemma mark_active_idem [simp]: "mark_active (mark_active g b) b = mark_active g b"
proof -
  let ?f = "\<lambda>(e, d). if same_edge e b then (e, AList.update ''active'' True d) else (e, d)"
  have "?f \<circ> ?f = ?f" by (rule ext) auto
  then show ?thesis by (simp add: mark_active_def)
qed

lemma set_edge_attr_active:
  assumes "edge \<in> set (edges g)" "same_edge edge bond"
  shows "set_edge_attr g (fst edge) (snd edge) ''active'' True = Inr (mark_active g bond)"
proof -
  have "has_edge g (fst edge) (snd edge)"
    using assms(1) by (auto simp: has_edge_def intro!: bexI [of _ edge])
  moreover have "\<And>e. same_edge e (fst edge, snd edge) = same_edge e bond"
    using same_edge_trans [OF assms(2)] by simp
  ultimately show ?thesis
    by (simp add: set_edge_attr_def mark_active_def)
qed

lemma mark_edges_eq:
  assumes "a < length h" "set es \<subseteq> set (edges (h ! a))"
  shows "mark_edges h a bond es flag =
     Inr (if \<exists>e \<in> set es. same_edge e bond then h[a := mark_active (h ! a) bond] else h,
          flag \<or> (\<exists>e \<in> set es. same_edge e bond))"
  using assms
proof (induction es arbitrary: h flag)
  case Nil
  then show ?case by simp
next
  case (Cons edge es)
  show ?case
  proof (cases "same_edge edge bond")
    case True
    let ?h1 = "h[a := mark_active (h ! a) bond]"
    have s: "set_edge_attr (h ! a) (fst edge) (snd edge) ''active'' True = Inr (mark_active (h ! a) bond)"
      using Cons.prems(2) True by (intro set_edge_attr_active) auto
    have a1: "a < length ?h1" using Cons.prems(1) by simp
    have sub: "set es \<subseteq> set (edges (?h1 ! a))" using Cons.prems by simp
    have "mark_edges h a bond (edge # es) flag = mark_edges ?h1 a bond es True"
      using True s by (simp add: same_edge_def)
    also have "\<dots> = Inr (?h1, True)"
      using Cons.IH [OF a1 sub, of True] Cons.prems(1) by simp
    finally show ?thesis using True by simp
  next
    case False
    have "mark_edges h a bond (edge # es) flag = mark_edges h a bond es flag"
      using False by (simp add: same_edge_def)
    then show ?thesis
      using Cons.IH [of h flag] Cons.prems False by simp
  qed
qed

lemma mark_bonds_eq:
  assumes "a < length h"
  shows "mark_bonds h a bonds = Inr (h[a := foldl activate (h ! a) bonds])"
  using assms
proof (induction bonds arbitrary: h)
  case Nil
  then show ?case by simp
next
  case (Cons bond bonds)
  have flag: "(\<exists>e \<in> set (edges (h ! a)). same_edge e bond) = has_edge (h ! a) (fst bond) (snd bond)"
    by (simp add: has_edge_def)
  have m: "mark_edges h a bond (edges (h ! a)) False =
     Inr (if has_edge (h ! a) (fst bond) (snd bond) then h[a := mark_active (h ! a) bond] else h,
          has_edge (h ! a) (fst bond) (snd bond))"
    using mark_edges_eq [OF Cons.prems, of "edges (h ! a)" bond False] flag by simp
  show ?case
  proof (cases "has_edge (h ! a) (fst bond) (snd bond)")
    case True
    then show ?thesis
      using m Cons.IH [of "h[a := mark_active (h ! a) bond]"] Cons.prems
      by (simp add: activate_def)
  next
    case False
    then show ?thesis
      using m Cons.IH [of "h[a := add_edge (h ! a) (fst bond) (snd bond) [(''active'', True)]]"] Cons.prems
      by (simp add: activate_def)
  qed
qed

lemma get_active_mol_graph_eq:
  assumes "graph self = Some r"
  shows "get_active_mol_graph h self bonds = Inr (h @ [foldl activate (h ! r) bonds], length h)"
  using assms mark_bonds_eq [of "length h" "h @ [h ! r]" bonds]
  by (simp add: get_active_mol_graph_def new_object_def copy_def)

lemma find_map_keep:
  "(\<And>x. P (f x) = P x) \<Longrightarrow> find P (map f xs) = map_option f (find P xs)"
  by (induction xs) auto

lemma find_snoc:
  "find P (xs @ [y]) = (case find P xs of None \<Rightarrow> (if P y then Some y else None) | Some x \<Rightarrow> Some x)"
  by (induction xs) auto

lemma find_None_has_edge:
  "(find (\<lambda>(e, d). same_edge e (u, v)) (edge_data g) = None) = (\<not> has_edge g u v)"
  by (simp add: find_None_iff has_edge_def edges_def case_prod_unfold) force

lemma edge_attr_no_edge: "\<not> has_edge g u v \<Longrightarrow> edge_attr g u v key = None"
  using find_None_has_edge [of u v g] by (simp add: edge_attr_def)

lemma same_edge_both: "same_edge e (u, v) \<Longrightarrow> same_edge e b = same_edge (u, v) b"
  by (cases e; cases b) (auto simp: same_edge_def)

lemma edge_attr_mark_active:
  "edge_attr (mark_active g b) u v key =
     (if key = ''active'' \<and> has_edge g u v \<and> same_edge (u, v) b then Some True
      else edge_attr g u v key)"
proof -
  let ?P = "\<lambda>(e, d). same_edge e (u, v)"
  let ?f = "\<lambda>(e, d). if same_edge e b then (e, AList.update ''active'' True d) else (e, d)"
  have fm: "find ?P (edge_data (mark_active g b)) = map_option ?f (find ?P (edge_data g))"
    unfolding mark_active_def by (simp add: find_map_keep case_prod_unfold)
  show ?thesis
  proof (cases "find ?P (edge_data g)")
    case None
    then have "\<not> has_edge g u v" using find_None_has_edge [of u v g] by simp
    then show ?thesis using None fm by (simp add: edge_attr_def)
  next
    case (Some p)
    obtain e d where p: "p = (e, d)" by (cases p)
    have se: "same_edge e (u, v)" using Some p by (auto simp: find_Some_iff)
    have he: "has_edge g u v" using find_None_has_edge [of u v g] Some by simp
    show ?thesis
      using Some p fm he same_edge_both [OF se, of b]
      by (simp add: edge_attr_def AList.update_conv')
  qed
qed

lemma edge_attr_add_new:
  assumes "\<not> has_edge g (fst b) (snd b)"
  shows "edge_attr (add_edge g (fst b) (snd b) [(''active'', True)]) u v key =
     (if same_edge (u, v) b \<and> key = ''active'' then Some True else edge_attr g u v key)"
proof -
  let ?P = "\<lambda>(e, d). same_edge e (u, v)"
  have ed: "edge_data (add_edge g (fst b) (snd b) [(''active'', True)])
      = edge_data g @ [(b, [(''active'', True)])]"
    using assms by (simp add: add_edge_def)
  show ?thesis
  proof (cases "same_edge (u, v) b")
    case True
    then have "has_edge g u v = has_edge g (fst b) (snd b)"
      by (auto simp: has_edge_def same_edge_def)
    then have n: "find ?P (edge_data g) = None"
      using assms find_None_has_edge [of u v g] by simp
    have "same_edge b (u, v)" using True same_edge_sym by blast
    then show ?thesis using True n ed by (simp add: edge_attr_def find_snoc)
  next
    case False
    then have "\<not> same_edge b (u, v)" using same_edge_sym by blast
    then show ?thesis using False ed
      by (simp add: edge_attr_def find_snoc split: option.splits)
  qed
qed

lemma edge_attr_activate:
  "edge_attr (activate g b) u v key =
     (if same_edge (u, v) b \<and> key = ''active'' then Some True else edge_attr g u v key)"
proof (cases "has_edge g (fst b) (snd b)")
  case True
  have "same_edge (u, v) b \<Longrightarrow> has_edge g u v"
    using True by (auto simp: has_edge_def same_edge_def)
  then show ?thesis using True
    by (auto simp: activate_def edge_attr_mark_active)
next
  case False
  then show ?thesis by (simp add: activate_def edge_attr_add_new)
qed

lemma edges_activate:
  "edges (activate g b) = (if has_edge g (fst b) (snd b) then edges g else edges g @ [b])"
proof (cases "has_edge g (fst b) (snd b)")
  case True
  then show ?thesis by (simp add: activate_def)
next
  case False
  then show ?thesis by (simp add: activate_def add_edge_def edges_def)
qed

lemma has_edge_activate:
  "has_edge (activate g b) u v = (has_edge g u v \<or> same_edge (u, v) b)"
proof -
  have "same_edge b (u, v) = same_edge (u, v) b" by (rule same_edge_sym)
  moreover have "has_edge g (fst b) (snd b) \<Longrightarrow> same_edge (u, v) b \<Longrightarrow> has_edge g u v"
    by (auto simp: has_edge_def same_edge_def)
  ultimately show ?thesis
    unfolding has_edge_def edges_activate by auto
qed

lemma edge_attr_foldl_activate:
  "edge_attr (foldl activate g bs) u v key =
     (if (\<exists>b \<in> set bs. same_edge (u, v) b) \<and> key = ''active'' then Some True
      else edge_attr g u v key)"
  by (induction bs arbitrary: g) (auto simp: edge_attr_activate)

lemma has_edge_foldl_activate:
  "has_edge (foldl activate g bs) u v = (has_edge g u v \<or> (\<exists>b \<in> set bs. same_edge (u, v) b))"
  by (induction bs arbitrary: g) (auto simp: has_edge_activate)

lemma edges_foldl_activate:
  "\<exists>new. edges (foldl activate g bs) = edges g @ new
     \<and> (\<forall>e \<in> set new. e \<in> set bs \<and> \<not> has_edge g (fst e) (snd e))"
proof (induction bs arbitrary: g)
  case Nil
  then show ?case by simp
next
  case (Cons b bs)
  obtain new where n: "edges (foldl activate (activate g b) bs) = edges (activate g b) @ new"
    "\<forall>e \<in> set new. e \<in> set bs \<and> \<not> has_edge (activate g b) (fst e) (snd e)"
    using Cons.IH [of "activate g b"] by blast
  have "\<forall>e \<in> set new. e \<in> set (b # bs) \<and> \<not> has_edge g (fst e) (snd e)"
    using n(2) by (auto simp: has_edge_activate)
  then show ?case
    using n(1) by (cases "has_edge g (fst b) (snd b)") (auto simp: edges_activate)
qed

lemma same_edge_pair: "same_edge (u, v) b = (b = (u, v) \<or> b = (v, u))"
  by (cases b) (auto simp: same_edge_def)

lemma same_edge_mem: "(\<exists>b \<in> set bs. same_edge (u, v) b) = ((u, v) \<in> set bs \<or> (v, u) \<in> set bs)"
  by (auto simp: same_edge_pair)

section \<open>Theorems\<close>

text \<open>
  C9: for every radical-electron count \<open>n\<close>, \<^verbatim>\<open>_calc_multiplicity\<close> returns 2 when
  \<open>n\<close> is 1 and the molecule's own multiplicity, unchanged, in every other case: for
  \<open>n\<close> greater than 1 (diradicals) and for \<open>n = 0\<close> as well.
\<close>

theorem calc_multiplicity_cases:
  "calc_multiplicity self 1 = 2
   \<and> (n \<noteq> 1 \<longrightarrow> calc_multiplicity self n = mult self)
   \<and> (1 < n \<longrightarrow> calc_multiplicity self n = mult self)
   \<and> calc_multiplicity self 0 = mult self"
  by (simp add: calc_multiplicity_def)

theorem calc_multiplicity_cases_witness:
  "calc_multiplicity (mol0\<lparr>mult := 3\<rparr>) 1 = 2
   \<and> calc_multiplicity (mol0\<lparr>mult := 3\<rparr>) 2 = 3
   \<and> calc_multiplicity (mol0\<lparr>mult := 3\<rparr>) 0 = 3"
  using calc_multiplicity_cases [of "mol0\<lparr>mult := 3\<rparr>" 2]
  by simp

text \<open>
  C1 (the code departs from the claim): four conformers with energies 0, 0, 1 and 1 Hartree
  and the default window of 1 kJ/mol, with \<^verbatim>\<open>ha2kJmol\<close> = 2625.5. The second conformer is
  dropped, the third is kept, and the fourth is kept as well although its energy is equal
  to that of the third, which is already retained: the inner loop compares it with the
  first two conformers of the molecule's list (energies 0 and 0), not with the two
  retained ones (energies 0 and 1).
\<close>

theorem strip_non_unique_confs_keeps_equal_energies:
  "strip_non_unique_confs 2625.5
     (mol0\<lparr>conformers := Some [conf_at 0 0, conf_at 1 0, conf_at 2 1, conf_at 3 1],
           n_conformers := Some 4\<rparr>) 1
   = Inr (mol0\<lparr>conformers := Some [conf_at 0 0, conf_at 2 1, conf_at 3 1],
           n_conformers := Some 3\<rparr>)"
  by (simp add: strip_non_unique_confs_def upt_rec conf_at_def)

text \<open>
  C10: for a molecule with \<open>n\<close> atoms whose graph has edges between distinct indices
  below \<open>n\<close>, \<^verbatim>\<open>get_possible_forming_bonds\<close> and \<^verbatim>\<open>get_possible_breaking_bonds\<close>
  both return, and they partition the unordered pairs of atom indices: a pair \<open>(i, j)\<close>
  with \<open>i < j < n\<close> is, up to orientation, in exactly one of the two lists, and it is
  among the forming bonds if and only if neither \<open>(i, j)\<close> nor \<open>(j, i)\<close> is an edge.
  Both lists hold such pairs only, and no forming bond is listed twice.
\<close>

theorem forming_breaking_partition:
  assumes "graph self = Some r" and "n_atoms self = Some n"
    and "\<forall>(a, b) \<in> set (edges (h ! r)). a \<noteq> b \<and> a < n \<and> b < n"
  shows "\<exists>fb bb. get_possible_forming_bonds h self = Inr fb
     \<and> get_possible_breaking_bonds h self = Inr bb
     \<and> (\<forall>i j. i < j \<and> j < n \<longrightarrow>
           ((i, j) \<in> set fb \<longleftrightarrow> (i, j) \<notin> set (edges (h ! r)) \<and> (j, i) \<notin> set (edges (h ! r)))
         \<and> (((i, j) \<in> set fb \<or> (j, i) \<in> set fb) \<noteq> ((i, j) \<in> set bb \<or> (j, i) \<in> set bb)))
     \<and> (\<forall>(a, b) \<in> set fb. a < b \<and> b < n)
     \<and> (\<forall>(a, b) \<in> set bb. (a < b \<and> b < n) \<or> (b < a \<and> a < n))
     \<and> distinct fb"
proof -
  let ?cb = "edges (h ! r)"
  let ?fb = "[(i, j). i \<leftarrow> [0..<n], j \<leftarrow> [0..<n],
                 i < j \<and> (i, j) \<notin> set ?cb \<and> (j, i) \<notin> set ?cb]"
  have fb: "get_possible_forming_bonds h self = Inr ?fb"
    using assms(1,2) by (simp add: get_possible_forming_bonds_def Let_def)
  have bb: "get_possible_breaking_bonds h self = Inr ?cb"
    using assms(1) by (simp add: get_possible_breaking_bonds_def)
  have set_fb: "set ?fb = {(i, j). i < j \<and> j < n \<and> (i, j) \<notin> set ?cb \<and> (j, i) \<notin> set ?cb}"
    by auto
  have d: "distinct ?fb" by (rule distinct_pairs)
  have p1: "\<forall>i j. i < j \<and> j < n \<longrightarrow>
           ((i, j) \<in> set ?fb \<longleftrightarrow> (i, j) \<notin> set ?cb \<and> (j, i) \<notin> set ?cb)
         \<and> (((i, j) \<in> set ?fb \<or> (j, i) \<in> set ?fb) \<noteq> ((i, j) \<in> set ?cb \<or> (j, i) \<in> set ?cb))"
    unfolding set_fb by auto
  have p2: "\<forall>(a, b) \<in> set ?fb. a < b \<and> b < n"
    unfolding set_fb by auto
  have p3: "\<forall>(a, b) \<in> set ?cb. (a < b \<and> b < n) \<or> (b < a \<and> a < n)"
    using assms(3) by auto
  show ?thesis
    using fb bb d p1 p2 p3 by blast
qed

theorem forming_breaking_partition_witness:
  "graph (mol0\<lparr>graph := Some 0, n_atoms := Some 3\<rparr>) = Some 0
   \<and> n_atoms (mol0\<lparr>graph := Some 0, n_atoms := Some 3\<rparr>) = Some 3
   \<and> edges ([chain_graph] ! 0) = [(0, 1), (1, 2)]
   \<and> get_possible_forming_bonds [chain_graph] (mol0\<lparr>graph := Some 0, n_atoms := Some 3\<rparr>)
       = Inr [(0, 2)]
   \<and> get_possible_breaking_bonds [chain_graph] (mol0\<lparr>graph := Some 0, n_atoms := Some 3\<rparr>)
       = Inr [(0, 1), (1, 2)]
   \<and> (\<exists>fb bb.
        get_possible_forming_bonds [chain_graph] (mol0\<lparr>graph := Some 0, n_atoms := Some 3\<rparr>)
          = Inr fb
        \<and> get_possible_breaking_bonds [chain_graph] (mol0\<lparr>graph := Some 0, n_atoms := Some 3\<rparr>)
          = Inr bb
        \<and> (0, 2) \<in> set fb \<and> (0, 1) \<notin> set fb \<and> (0, 1) \<in> set bb \<and> distinct fb)"
proof -
  let ?m = "mol0\<lparr>graph := Some 0, n_atoms := Some 3\<rparr>"
  have e: "edges ([chain_graph] ! 0) = [(0, 1), (1, 2)]"
    by (simp add: chain_graph_def edges_def)
  have h3: "\<forall>(a, b) \<in> set (edges ([chain_graph] ! 0)). a \<noteq> b \<and> a < (3::nat) \<and> b < 3"
    unfolding e by simp
  have f: "get_possible_forming_bonds [chain_graph] ?m = Inr [(0, 2)]"
    by (simp add: get_possible_forming_bonds_def Let_def edges_def chain_graph_def upt_rec)
  have b: "get_possible_breaking_bonds [chain_graph] ?m = Inr [(0, 1), (1, 2)]"
    by (simp add: get_possible_breaking_bonds_def edges_def chain_graph_def)
  from forming_breaking_partition [of ?m 0 3 "[chain_graph]", OF _ _ h3]
  show ?thesis using e f b by simp
qed

text \<open>
  C8: for a molecule with a graph and any list of atom-index pairs,
  \<^verbatim>\<open>get_active_mol_graph\<close> returns a new graph object in which every supplied pair is
  an edge with \<^verbatim>\<open>'active'\<close> set to \<^verbatim>\<open>True\<close>. A pair that is already an edge, in
  either orientation, has that edge marked and adds none: the edges of the result are
  those of the molecule's graph, followed by the supplied pairs that were no edges. Every
  other attribute of every edge is as in the molecule's graph. The objects that were in
  the store before the call, the molecule's own graph among them, are unchanged.
\<close>

theorem get_active_mol_graph_marks_copy:
  assumes "graph self = Some r" and "r < length h"
  shows "\<exists>h' a. get_active_mol_graph h self active_bonds = Inr (h', a)
     \<and> a \<noteq> r \<and> a < length h' \<and> (\<forall>k < length h. h' ! k = h ! k)
     \<and> (\<forall>(u, v) \<in> set active_bonds.
           has_edge (h' ! a) u v \<and> edge_attr (h' ! a) u v ''active'' = Some True)
     \<and> (\<forall>u v. has_edge (h' ! a) u v \<longleftrightarrow>
           has_edge (h ! r) u v \<or> (u, v) \<in> set active_bonds \<or> (v, u) \<in> set active_bonds)
     \<and> (\<exists>new. edges (h' ! a) = edges (h ! r) @ new
           \<and> (\<forall>(u, v) \<in> set new. (u, v) \<in> set active_bonds \<and> \<not> has_edge (h ! r) u v))
     \<and> (\<forall>u v key.
           \<not> (key = ''active'' \<and> ((u, v) \<in> set active_bonds \<or> (v, u) \<in> set active_bonds))
           \<longrightarrow> edge_attr (h' ! a) u v key = edge_attr (h ! r) u v key)"
proof -
  let ?g = "foldl activate (h ! r) active_bonds"
  let ?h' = "h @ [?g]"
  have res: "get_active_mol_graph h self active_bonds = Inr (?h', length h)"
    using assms(1) by (rule get_active_mol_graph_eq)
  have at: "?h' ! length h = ?g" by simp
  have frame: "\<forall>k < length h. ?h' ! k = h ! k" by (simp add: nth_append)
  have marked: "\<forall>(u, v) \<in> set active_bonds.
      has_edge ?g u v \<and> edge_attr ?g u v ''active'' = Some True"
    by (auto simp: has_edge_foldl_activate edge_attr_foldl_activate same_edge_mem)
  have edges_iff: "\<forall>u v. has_edge ?g u v \<longleftrightarrow>
      has_edge (h ! r) u v \<or> (u, v) \<in> set active_bonds \<or> (v, u) \<in> set active_bonds"
    by (simp add: has_edge_foldl_activate same_edge_mem)
  obtain new where new: "edges ?g = edges (h ! r) @ new"
      "\<forall>e \<in> set new. e \<in> set active_bonds \<and> \<not> has_edge (h ! r) (fst e) (snd e)"
    using edges_foldl_activate [of "h ! r" active_bonds] by blast
  have new': "\<exists>new. edges ?g = edges (h ! r) @ new
      \<and> (\<forall>(u, v) \<in> set new. (u, v) \<in> set active_bonds \<and> \<not> has_edge (h ! r) u v)"
    using new by (intro exI [of _ new]) auto
  have others: "\<forall>u v key.
      \<not> (key = ''active'' \<and> ((u, v) \<in> set active_bonds \<or> (v, u) \<in> set active_bonds))
      \<longrightarrow> edge_attr ?g u v key = edge_attr (h ! r) u v key"
    by (simp add: edge_attr_foldl_activate same_edge_mem)
  have "length h \<noteq> r \<and> length h < length ?h'" using assms(2) by simp
  then show ?thesis
    unfolding res using frame marked edges_iff new' others
    by (intro exI [of _ ?h'] exI [of _ "length h"]) (simp only: at simp_thms)
qed

theorem get_active_mol_graph_marks_copy_witness:
  "graph (mol0\<lparr>graph := Some 0, n_atoms := Some 3\<rparr>) = Some 0
   \<and> (0::nat) < length [chain_graph]
   \<and> get_active_mol_graph [chain_graph] (mol0\<lparr>graph := Some 0, n_atoms := Some 3\<rparr>)
        [(1, 0), (0, 2)]
      = Inr ([chain_graph,
              \<lparr>nodes = [0, 1, 2],
               edge_data = [((0, 1), [(''active'', True)]), ((1, 2), []),
                            ((0, 2), [(''active'', True)])]\<rparr>], 1)
   \<and> (\<exists>h' a. get_active_mol_graph [chain_graph] (mol0\<lparr>graph := Some 0, n_atoms := Some 3\<rparr>)
          [(1, 0), (0, 2)] = Inr (h', a)
     \<and> a \<noteq> 0 \<and> a < length h' \<and> (\<forall>k < length [chain_graph]. h' ! k = [chain_graph] ! k)
     \<and> (\<forall>(u, v) \<in> set [(1, 0), (0, 2)].
           has_edge (h' ! a) u v \<and> edge_attr (h' ! a) u v ''active'' = Some True)
     \<and> (\<forall>u v. has_edge (h' ! a) u v \<longleftrightarrow>
           has_edge ([chain_graph] ! 0) u v \<or> (u, v) \<in> set [(1, 0), (0, 2)]
           \<or> (v, u) \<in> set [(1, 0), (0, 2)])
     \<and> (\<exists>new. edges (h' ! a) = edges ([chain_graph] ! 0) @ new
           \<and> (\<forall>(u, v) \<in> set new. (u, v) \<in> set [(1, 0), (0, 2)]
                 \<and> \<not> has_edge ([chain_graph] ! 0) u v))
     \<and> (\<forall>u v key.
           \<not> (key = ''active'' \<and> ((u, v) \<in> set [(1, 0), (0, 2)] \<or> (v, u) \<in> set [(1, 0), (0, 2)]))
           \<longrightarrow> edge_attr (h' ! a) u v key = edge_attr ([chain_graph] ! 0) u v key))"
proof (intro conjI)
  show g: "graph (mol0\<lparr>graph := Some 0, n_atoms := Some 3\<rparr>) = Some 0" by simp
  show l: "(0::nat) < length [chain_graph]" by simp
  show "get_active_mol_graph [chain_graph] (mol0\<lparr>graph := Some 0, n_atoms := Some 3\<rparr>)
        [(1, 0), (0, 2)]
      = Inr ([chain_graph,
              \<lparr>nodes = [0, 1, 2],
               edge_data = [((0, 1), [(''active'', True)]), ((1, 2), []),
                            ((0, 2), [(''active'', True)])]\<rparr>], 1)"
    by (simp add: get_active_mol_graph_def new_object_def copy_def chain_graph_def edges_def
        set_edge_attr_def has_edge_def same_edge_def add_edge_def add_node_def)
  show "\<exists>h' a. get_active_mol_graph [chain_graph] (mol0\<lparr>graph := Some 0, n_atoms := Some 3\<rparr>)
          [(1, 0), (0, 2)] = Inr (h', a)
     \<and> a \<noteq> 0 \<and> a < length h' \<and> (\<forall>k < length [chain_graph]. h' ! k = [chain_graph] ! k)
     \<and> (\<forall>(u, v) \<in> set [(1, 0), (0, 2)].
           has_edge (h' ! a) u v \<and> edge_attr (h' ! a) u v ''active'' = Some True)
     \<and> (\<forall>u v. has_edge (h' ! a) u v \<longleftrightarrow>
           has_edge ([chain_graph] ! 0) u v \<or> (u, v) \<in> set [(1, 0), (0, 2)]
           \<or> (v, u) \<in> set [(1, 0), (0, 2)])
     \<and> (\<exists>new. edges (h' ! a) = edges ([chain_graph] ! 0) @ new
           \<and> (\<forall>(u, v) \<in> set new. (u, v) \<in> set [(1, 0), (0, 2)]
                 \<and> \<not> has_edge ([chain_graph] ! 0) u v))
     \<and> (\<forall>u v key.
           \<not> (key = ''active'' \<and> ((u, v) \<in> set [(1, 0), (0, 2)] \<or> (v, u) \<in> set [(1, 0), (0, 2)]))
           \<longrightarrow> edge_attr (h' ! a) u v key = edge_attr ([chain_graph] ! 0) u v key)"
    by (rule get_active_mol_graph_marks_copy [OF g l])
qed

end
